theory Spec2Isabelle
  imports Main "HOL-Library.Word"
begin

section \<open>Errors\<close>

text \<open>
  Go errors as values. \<open>Error msg\<close> is an error some collaborator made up;
  \<open>Errorf q inner\<close> is the result of \<^verbatim>\<open>fmt.Errorf\<close> with one quoted argument \<open>q\<close> and one
  wrapped error \<open>inner\<close> (the only such call of the cataloging code is
  \<^verbatim>\<open>fmt.Errorf("unable to find path for path=%q: %w", path, err)\<close>);
  \<open>SchemeError s\<close> is the worker's
  \<^verbatim>\<open>fmt.Errorf("the power-user subcommand only allows for 'image' schemes, given %q", s)\<close>;
  \<open>MultiError es\<close> is go-multierror's \<^verbatim>\<open>*multierror.Error\<close> with \<open>Errors = es\<close>.
  A nil error is \<open>None\<close> of \<open>error option\<close>.
\<close>

datatype error =
    Error string
  | Errorf string error
  | SchemeError string
  | MultiError "error list"

text \<open>
  go-multierror's \<^verbatim>\<open>Append(err, errs...)\<close> with one appended error, which the caller has found
  non-nil: an appended \<^verbatim>\<open>*multierror.Error\<close> is flattened into its elements, and an
  accumulator that is nil or not a \<^verbatim>\<open>*multierror.Error\<close> is first turned into one.
\<close>

fun flatten :: "error \<Rightarrow> error list" where
  "flatten (MultiError es) = es"
| "flatten e = [e]"

fun multierror_Append :: "error option \<Rightarrow> error \<Rightarrow> error" where
  "multierror_Append None e = MultiError (flatten e)"
| "multierror_Append (Some (MultiError es)) e = MultiError (es @ flatten e)"
| "multierror_Append (Some e0) e = MultiError (flatten e0 @ flatten e)"

section \<open>Data model\<close>

text \<open>
  \<^verbatim>\<open>source.Coordinates\<close> and \<^verbatim>\<open>source.Location\<close> (which embeds its coordinates).
\<close>

record Coordinates =
  RealPath :: string
  FileSystemID :: string

record Location =
  Coordinates :: Coordinates
  VirtualPath :: string

text \<open>
  Modelled from the spec: the metadata types and the \<^verbatim>\<open>pkg.FileOwner\<close> interface are declared
  outside the files at hand. Metadata is a tagged variant; some variants expose the
  owned-files capability (\<^verbatim>\<open>OwnedFiles()\<close>), the others do not. \<open>asFileOwner\<close> is the type
  assertion \<^verbatim>\<open>p.Metadata.(pkg.FileOwner)\<close> followed by \<^verbatim>\<open>OwnedFiles()\<close>.
\<close>

datatype Metadata =
    NoMetadata
  | PlainMetadata string
  | FileOwnerMetadata "string list"

fun asFileOwner :: "Metadata \<Rightarrow> string list option" where
  "asFileOwner (FileOwnerMetadata paths) = Some paths"
| "asFileOwner m = None"

text \<open>
  Modelled from the spec: \<^verbatim>\<open>pkg.Package\<close> is declared outside the files at hand. The fields
  are the ones the spec's data model lists; the source reads \<open>Name\<close> and \<open>Metadata\<close> and
  writes \<open>CPEs\<close> and \<open>PURL\<close>.
\<close>

record Package =
  Name :: string
  Version :: string
  Type :: string
  Metadata :: Metadata
  Licenses :: "string list"
  Locations :: "Location list"
  CPEs :: "string list"
  PURL :: string

text \<open>
  \<^verbatim>\<open>artifact.Relationship\<close>: the end points are \<^verbatim>\<open>artifact.Identifiable\<close> values, here a
  package or the coordinates of a file.
\<close>

datatype Identifiable =
    PackageNode Package
  | CoordinatesNode Coordinates

datatype RelationshipType =
    ContainsRelationship
  | OwnershipByFileOverlapRelationship
  | DependencyOfRelationship

record Relationship =
  From :: Identifiable
  To :: Identifiable
  RType :: RelationshipType

text \<open>
  \<^verbatim>\<open>source.FileResolver\<close>: of its methods the code calls \<^verbatim>\<open>FilesByPath\<close> only, which returns
  the locations and an error (\<open>None\<close> for nil).
\<close>

record FileResolver =
  FilesByPath :: "string \<Rightarrow> Location list \<times> error option"

text \<open>\<^verbatim>\<open>linux.Release\<close>, passed through to \<^verbatim>\<open>pkg.URL\<close>; a nil pointer is \<open>None\<close>.\<close>

record Release =
  ReleaseID :: string
  VersionID :: string

text \<open>
  \<^verbatim>\<open>pkg.Cataloger\<close>: \<^verbatim>\<open>Name()\<close> and \<^verbatim>\<open>Catalog(resolver)\<close>, the latter returning packages,
  relationships and an error, all three of which a cataloger is free to set.
\<close>

record Cataloger =
  CatalogerName :: string
  CatalogerCatalog :: "FileResolver \<Rightarrow> Package list \<times> Relationship list \<times> error option"

section \<open>The package catalog\<close>

text \<open>
  Modelled from the spec: \<^verbatim>\<open>pkg.Catalog\<close>, \<^verbatim>\<open>pkg.NewCatalog\<close> and \<^verbatim>\<open>Add\<close> are outside the
  files at hand. The spec: a package's identity is a stable hash over name, version,
  ecosystem type and (a subset of) the metadata, here the tuple itself; the catalog is the
  insertion-ordered collection of packages, unique by identity; adding a package whose
  identity is present merges (locations accumulate, the other fields of the first-seen
  entry stay).
\<close>

type_synonym PackageIdentity = "string \<times> string \<times> string \<times> Metadata"

definition PackageID :: "Package \<Rightarrow> PackageIdentity" where
  "PackageID p = (Name p, Version p, Type p, Metadata p)"

type_synonym pkg_Catalog = "Package list"

definition NewCatalog :: pkg_Catalog where
  "NewCatalog = []"

fun Add :: "pkg_Catalog \<Rightarrow> Package \<Rightarrow> pkg_Catalog" where
  "Add [] p = [p]"
| "Add (q # c) p =
     (if PackageID q = PackageID p
      then q\<lparr>Locations := Locations q @ filter (\<lambda>l. l \<notin> set (Locations q)) (Locations p)\<rparr> # c
      else q # Add c p)"

section \<open>Collaborators and observable effects of a cataloging run\<close>

text \<open>
  The functions of other packages that \<^verbatim>\<open>Catalog\<close> calls and that are outside the files at
  hand, taken as parameters: \<^verbatim>\<open>cpe.Generate\<close>, \<^verbatim>\<open>pkg.URL\<close> and \<^verbatim>\<open>pkg.NewRelationships\<close>.
\<close>

record Collaborators =
  cpe_Generate :: "Package \<Rightarrow> string list"
  pkg_URL :: "Package \<Rightarrow> Release option \<Rightarrow> string"
  pkg_NewRelationships :: "pkg_Catalog \<Rightarrow> Relationship list"

text \<open>
  What a run does besides returning: the log lines it writes and the calls it makes to
  catalogers and to \<^verbatim>\<open>pkg.NewRelationships\<close>, in program order.
\<close>

datatype Effect =
    Debugf_cataloging string
  | Call_Catalog string
  | Debugf_discovered nat
  | Warnf_ownership string error
  | Call_NewRelationships pkg_Catalog

text \<open>
  A \<^verbatim>\<open>progress.Manual\<close> counter of the monitor: the \<^verbatim>\<open>int64\<close> field \<open>N\<close>, and whether
  \<^verbatim>\<open>SetCompleted()\<close> has been called.
\<close>

record Manual =
  N :: "64 word"
  Completed :: bool

definition SetCompleted :: "Manual \<Rightarrow> Manual" where
  "SetCompleted m = m\<lparr>Completed := True\<rparr>"

text \<open>
  The variables of \<^verbatim>\<open>Catalog\<close>: the catalog being built, \<open>allRelationships\<close>, \<open>errs\<close>,
  the two counters that \<^verbatim>\<open>monitor.NewPackageCatalogerMonitor()\<close> returns, and the effects
  so far.
\<close>

record CatalogState =
  catalog :: pkg_Catalog
  allRelationships :: "Relationship list"
  errs :: "error option"
  filesProcessed :: Manual
  packagesDiscovered :: Manual
  effects :: "Effect list"

section \<open>Ownership relationships\<close>

text \<open>
  \<^verbatim>\<open>packageFileOwnershipRelationships\<close>. \<open>ownedLocations\<close> is the inner loop over the
  locations of one path, \<open>ownedPaths\<close> the loop over the declared paths with the
  relationships collected so far; a nil slice is the empty list.
\<close>

definition ownedLocations :: "Package \<Rightarrow> Relationship list \<Rightarrow> Location list \<Rightarrow> Relationship list" where
  "ownedLocations p relationships locations =
     foldl (\<lambda>rs l. rs @ [\<lparr>From = PackageNode p, To = CoordinatesNode (Coordinates l),
                            RType = ContainsRelationship\<rparr>]) relationships locations"

fun ownedPaths :: "Package \<Rightarrow> FileResolver \<Rightarrow> string list \<Rightarrow> Relationship list
    \<Rightarrow> Relationship list \<times> error option" where
  "ownedPaths p resolver [] relationships = (relationships, None)"
| "ownedPaths p resolver (path # paths) relationships =
     (case FilesByPath resolver path of
        (locations, Some err) \<Rightarrow> ([], Some (Errorf path err))
      | (locations, None) \<Rightarrow>
          if length locations = 0 then ownedPaths p resolver paths relationships
          else ownedPaths p resolver paths (ownedLocations p relationships locations))"

definition packageFileOwnershipRelationships :: "Package \<Rightarrow> FileResolver
    \<Rightarrow> Relationship list \<times> error option" where
  "packageFileOwnershipRelationships p resolver =
     (case asFileOwner (Metadata p) of
        None \<Rightarrow> ([], None)
      | Some paths \<Rightarrow> ownedPaths p resolver paths [])"

section \<open>The cataloging run\<close>

text \<open>
  The two assignments to the loop's copy of the package: first the CPEs, then the PURL,
  computed from the package that already carries the new CPEs.
\<close>

definition synthesizeIdentifiers :: "Collaborators \<Rightarrow> Release option \<Rightarrow> Package \<Rightarrow> Package" where
  "synthesizeIdentifiers env release p =
     (let p1 = p\<lparr>CPEs := cpe_Generate env p\<rparr>;
          p2 = p1\<lparr>PURL := pkg_URL env p1 release\<rparr>
      in p2)"

text \<open>The body of the loop over the packages of one cataloger.\<close>

definition packageStep :: "Collaborators \<Rightarrow> FileResolver \<Rightarrow> Release option
    \<Rightarrow> CatalogState \<Rightarrow> Package \<Rightarrow> CatalogState" where
  "packageStep env resolver release st p0 =
     (let p = synthesizeIdentifiers env release p0;
          st1 = (case packageFileOwnershipRelationships p resolver of
                   (owningRelationships, Some err) \<Rightarrow>
                     st\<lparr>effects := effects st @ [Warnf_ownership (Name p) err]\<rparr>
                 | (owningRelationships, None) \<Rightarrow>
                     st\<lparr>allRelationships := allRelationships st @ owningRelationships\<rparr>)
      in st1\<lparr>catalog := Add (catalog st1) p\<rparr>)"

text \<open>The body of the loop over the catalogers.\<close>

definition catalogerStep :: "Collaborators \<Rightarrow> FileResolver \<Rightarrow> Release option
    \<Rightarrow> CatalogState \<Rightarrow> Cataloger \<Rightarrow> CatalogState" where
  "catalogerStep env resolver release st c =
     (let st1 = st\<lparr>effects := effects st @ [Debugf_cataloging (CatalogerName c),
                                             Call_Catalog (CatalogerName c)]\<rparr>
      in case CatalogerCatalog c resolver of
           (packages, relationships, Some err) \<Rightarrow>
             st1\<lparr>errs := Some (multierror_Append (errs st1) err)\<rparr>
         | (packages, relationships, None) \<Rightarrow>
             (let catalogedPackages = length packages;
                  st2 = st1\<lparr>effects := effects st1 @ [Debugf_discovered catalogedPackages],
                            packagesDiscovered := (packagesDiscovered st1)
                              \<lparr>N := N (packagesDiscovered st1) + of_nat catalogedPackages\<rparr>\<rparr>;
                  st3 = foldl (packageStep env resolver release) st2 packages
              in st3\<lparr>allRelationships := allRelationships st3 @ relationships\<rparr>))"

text \<open>
  \<^verbatim>\<open>Catalog\<close>: the returned triple (a nil catalog is \<open>None\<close>, a nil slice the empty list, a
  nil error \<open>None\<close>) together with the final state, which holds the counters and the
  effects.
\<close>

definition initialState :: CatalogState where
  "initialState =
     \<lparr>catalog = NewCatalog, allRelationships = [], errs = None,
      filesProcessed = \<lparr>N = 0, Completed = False\<rparr>,
      packagesDiscovered = \<lparr>N = 0, Completed = False\<rparr>,
      effects = []\<rparr>"

definition Catalog :: "Collaborators \<Rightarrow> FileResolver \<Rightarrow> Release option \<Rightarrow> Cataloger list
    \<Rightarrow> (pkg_Catalog option \<times> Relationship list \<times> error option) \<times> CatalogState" where
  "Catalog env resolver release catalogers =
     (let st1 = foldl (catalogerStep env resolver release) initialState catalogers;
          st2 = st1\<lparr>effects := effects st1 @ [Call_NewRelationships (catalog st1)],
                    allRelationships := allRelationships st1 @ pkg_NewRelationships env (catalog st1)\<rparr>
      in case errs st2 of
           Some e \<Rightarrow> ((None, [], Some e), st2)
         | None \<Rightarrow>
             (let st3 = st2\<lparr>filesProcessed := SetCompleted (filesProcessed st2),
                            packagesDiscovered := SetCompleted (packagesDiscovered st2)\<rparr>
              in ((Some (catalog st3), allRelationships st3, None), st3)))"

section \<open>The power-user worker\<close>









datatype EventType =
    AppUpdateAvailable
  | PackageCatalogerStarted
  | PresenterReady






section \<open>Observations\<close>

text \<open>The cataloger calls and the synthesizer calls among the effects of a run.\<close>

fun catalogerCalls :: "Effect list \<Rightarrow> string list" where
  "catalogerCalls [] = []"
| "catalogerCalls (Call_Catalog n # es) = n # catalogerCalls es"
| "catalogerCalls (e # es) = catalogerCalls es"

fun synthesizerCalls :: "Effect list \<Rightarrow> pkg_Catalog list" where
  "synthesizerCalls [] = []"
| "synthesizerCalls (Call_NewRelationships c # es) = c # synthesizerCalls es"
| "synthesizerCalls (e # es) = synthesizerCalls es"



text \<open>
  What the catalogers of a run return: the error of each (\<open>None\<close> for nil), the errors of
  the failing ones, and the catalogers that return no error.
\<close>

definition catalogerError :: "FileResolver \<Rightarrow> Cataloger \<Rightarrow> error option" where
  "catalogerError resolver c = snd (snd (CatalogerCatalog c resolver))"

definition catalogerPackages :: "FileResolver \<Rightarrow> Cataloger \<Rightarrow> Package list" where
  "catalogerPackages resolver c = fst (CatalogerCatalog c resolver)"

definition catalogerRelationships :: "FileResolver \<Rightarrow> Cataloger \<Rightarrow> Relationship list" where
  "catalogerRelationships resolver c = fst (snd (CatalogerCatalog c resolver))"

definition failures :: "FileResolver \<Rightarrow> Cataloger list \<Rightarrow> error list" where
  "failures resolver catalogers = List.map_filter (catalogerError resolver) catalogers"

definition succeeded :: "FileResolver \<Rightarrow> Cataloger list \<Rightarrow> Cataloger list" where
  "succeeded resolver catalogers = filter (\<lambda>c. catalogerError resolver c = None) catalogers"

text \<open>
  The ownership relationships that the run keeps for a package as a cataloger returned
  it: those of the package with its identifiers attached, or none when the derivation
  returns an error.
\<close>

definition keptOwnership :: "Collaborators \<Rightarrow> FileResolver \<Rightarrow> Release option \<Rightarrow> Package
    \<Rightarrow> Relationship list" where
  "keptOwnership env resolver release p0 =
     (case packageFileOwnershipRelationships (synthesizeIdentifiers env release p0) resolver of
        (owningRelationships, Some err) \<Rightarrow> []
      | (owningRelationships, None) \<Rightarrow> owningRelationships)"

text \<open>The warning, if any, that the run logs for a package as a cataloger returned it.\<close>

definition ownershipWarning :: "Collaborators \<Rightarrow> FileResolver \<Rightarrow> Release option \<Rightarrow> Package
    \<Rightarrow> Effect list" where
  "ownershipWarning env resolver release p0 =
     (case packageFileOwnershipRelationships (synthesizeIdentifiers env release p0) resolver of
        (owningRelationships, Some err) \<Rightarrow> [Warnf_ownership (Name p0) err]
      | (owningRelationships, None) \<Rightarrow> [])"

text \<open>All packages that the catalogers without an error return, in order.\<close>

definition discovered :: "FileResolver \<Rightarrow> Cataloger list \<Rightarrow> Package list" where
  "discovered resolver catalogers = concat (map (catalogerPackages resolver) (succeeded resolver catalogers))"

text \<open>
  The effects of one turn of the loop over the catalogers, and the relationships that a
  cataloger without an error adds to \<open>allRelationships\<close>.
\<close>

definition catalogerEffects :: "Collaborators \<Rightarrow> FileResolver \<Rightarrow> Release option \<Rightarrow> Cataloger
    \<Rightarrow> Effect list" where
  "catalogerEffects env resolver release c =
     [Debugf_cataloging (CatalogerName c), Call_Catalog (CatalogerName c)] @
     (case catalogerError resolver c of
        Some err \<Rightarrow> []
      | None \<Rightarrow> Debugf_discovered (length (catalogerPackages resolver c)) #
                concat (map (ownershipWarning env resolver release) (catalogerPackages resolver c)))"

definition catalogerKept :: "Collaborators \<Rightarrow> FileResolver \<Rightarrow> Release option \<Rightarrow> Cataloger
    \<Rightarrow> Relationship list" where
  "catalogerKept env resolver release c =
     concat (map (keptOwnership env resolver release) (catalogerPackages resolver c)) @
     catalogerRelationships resolver c"

text \<open>The value of \<open>errs\<close> after the given errors have been appended to it in turn.\<close>

definition aggregate :: "error option \<Rightarrow> error list \<Rightarrow> error option" where
  "aggregate acc es = foldl (\<lambda>acc e. Some (multierror_Append acc e)) acc es"

text \<open>
  The catalog that the loops of a run build: the packages of the catalogers without an
  error, each with its identifiers attached, added in order to a new catalog.
\<close>

definition builtCatalog :: "Collaborators \<Rightarrow> FileResolver \<Rightarrow> Release option \<Rightarrow> Cataloger list
    \<Rightarrow> pkg_Catalog" where
  "builtCatalog env resolver release catalogers =
     foldl Add NewCatalog (map (synthesizeIdentifiers env release) (discovered resolver catalogers))"

text \<open>Two packages that differ at most in their locations.\<close>

definition sameButLocations :: "Package \<Rightarrow> Package \<Rightarrow> bool" where
  "sameButLocations q p = (q\<lparr>Locations := Locations p\<rparr> = p)"





section \<open>A sample run\<close>

text \<open>
  A content source with one file that resolves, one path on which the lookup fails and
  nothing else; three packages; four catalogers, of which \<open>catalogerFailing\<close> returns a
  package together with an error.
\<close>

definition locationX :: Location where
  "locationX = \<lparr>Coordinates = \<lparr>RealPath = ''/usr/bin/x'', FileSystemID = ''layer0''\<rparr>,
                VirtualPath = ''/usr/bin/x''\<rparr>"

definition sampleResolver :: FileResolver where
  "sampleResolver =
     \<lparr>FilesByPath = (\<lambda>path.
        if path = ''/usr/bin/x'' then ([locationX], None)
        else if path = ''/proc/broken'' then ([], Some (Error ''io''))
        else ([], None))\<rparr>"

definition sampleEnv :: Collaborators where
  "sampleEnv =
     \<lparr>cpe_Generate = (\<lambda>p. [''cpe:'' @ Name p]),
      pkg_URL = (\<lambda>p release. ''pkg:'' @ Name p),
      pkg_NewRelationships = (\<lambda>c. map (\<lambda>p. \<lparr>From = PackageNode p, To = PackageNode p,
                                               RType = DependencyOfRelationship\<rparr>) (take 1 c))\<rparr>"

definition package1 :: Package where
  "package1 = \<lparr>Name = ''p1'', Version = ''1.0'', Type = ''deb'',
               Metadata = FileOwnerMetadata [''/usr/bin/x'', ''/usr/bin/gone''],
               Licenses = [], Locations = [], CPEs = [], PURL = []\<rparr>"

definition package2 :: Package where
  "package2 = \<lparr>Name = ''p2'', Version = ''2.0'', Type = ''npm'', Metadata = NoMetadata,
               Licenses = [''MIT''], Locations = [locationX], CPEs = [], PURL = []\<rparr>"

definition package3 :: Package where
  "package3 = \<lparr>Name = ''p3'', Version = ''3.0'', Type = ''rpm'',
               Metadata = FileOwnerMetadata [''/usr/bin/x'', ''/proc/broken'', ''/usr/bin/x''],
               Licenses = [], Locations = [], CPEs = [], PURL = []\<rparr>"

definition catalogerA :: Cataloger where
  "catalogerA = \<lparr>CatalogerName = ''A'', CatalogerCatalog = (\<lambda>resolver. ([package1], [], None))\<rparr>"

definition catalogerB :: Cataloger where
  "catalogerB =
     \<lparr>CatalogerName = ''B'', CatalogerCatalog = (\<lambda>resolver. ([package2, package1], [], None))\<rparr>"

definition catalogerC :: Cataloger where
  "catalogerC = \<lparr>CatalogerName = ''C'', CatalogerCatalog = (\<lambda>resolver. ([package3], [], None))\<rparr>"

definition catalogerFailing :: Cataloger where
  "catalogerFailing =
     \<lparr>CatalogerName = ''B'',
      CatalogerCatalog = (\<lambda>resolver. ([package2], [], Some (Error ''E'')))\<rparr>"






section \<open>The loops in closed form\<close>

lemma ownedLocations_eq:
  "ownedLocations p rs ls =
     rs @ map (\<lambda>l. \<lparr>From = PackageNode p, To = CoordinatesNode (Coordinates l),
                     RType = ContainsRelationship\<rparr>) ls"
  unfolding ownedLocations_def by (induction ls arbitrary: rs) simp_all

lemma synth_fields:
  "Name (synthesizeIdentifiers env release p) = Name p"
  "Version (synthesizeIdentifiers env release p) = Version p"
  "Type (synthesizeIdentifiers env release p) = Type p"
  "Metadata (synthesizeIdentifiers env release p) = Metadata p"
  "Licenses (synthesizeIdentifiers env release p) = Licenses p"
  "Locations (synthesizeIdentifiers env release p) = Locations p"
  by (simp_all add: synthesizeIdentifiers_def Let_def)

lemma synth_PackageID: "PackageID (synthesizeIdentifiers env release p) = PackageID p"
  by (simp add: PackageID_def synth_fields)

lemma packageStep_eq:
  "packageStep env r rel st p =
     st\<lparr>catalog := Add (catalog st) (synthesizeIdentifiers env rel p),
        allRelationships := allRelationships st @ keptOwnership env r rel p,
        effects := effects st @ ownershipWarning env r rel p\<rparr>"
  by (simp add: packageStep_def keptOwnership_def ownershipWarning_def Let_def synth_fields
      split: prod.splits option.splits)

lemma packages_loop:
  "foldl (packageStep env r rel) st ps =
     st\<lparr>catalog := foldl Add (catalog st) (map (synthesizeIdentifiers env rel) ps),
        allRelationships := allRelationships st @ concat (map (keptOwnership env r rel) ps),
        effects := effects st @ concat (map (ownershipWarning env r rel) ps)\<rparr>"
proof (induction ps arbitrary: st)
  case Nil
  then show ?case by simp
next
  case (Cons p ps)
  show ?case by (simp add: Cons.IH) (simp add: packageStep_eq)
qed

lemma catalogerStep_failed:
  "catalogerError r c = Some e \<Longrightarrow>
   catalogerStep env r rel st c =
     st\<lparr>errs := Some (multierror_Append (errs st) e),
        effects := effects st @ catalogerEffects env r rel c\<rparr>"
  by (cases "CatalogerCatalog c r")
     (simp add: catalogerStep_def catalogerEffects_def catalogerError_def Let_def)

lemma catalogerStep_succeeded:
  "catalogerError r c = None \<Longrightarrow>
   catalogerStep env r rel st c =
     st\<lparr>catalog := foldl Add (catalog st)
                     (map (synthesizeIdentifiers env rel) (catalogerPackages r c)),
        allRelationships := allRelationships st @ catalogerKept env r rel c,
        packagesDiscovered := (packagesDiscovered st)
          \<lparr>N := N (packagesDiscovered st) + of_nat (length (catalogerPackages r c))\<rparr>,
        effects := effects st @ catalogerEffects env r rel c\<rparr>"
  by (cases "CatalogerCatalog c r")
     (simp add: catalogerStep_def catalogerEffects_def catalogerKept_def catalogerError_def
        catalogerPackages_def catalogerRelationships_def Let_def packages_loop)

lemma loop_effects:
  "effects (foldl (catalogerStep env r rel) st cs) =
     effects st @ concat (map (catalogerEffects env r rel) cs)"
proof (induction cs arbitrary: st)
  case Nil
  then show ?case by simp
next
  case (Cons c cs)
  show ?case
    by (cases "catalogerError r c")
       (simp_all add: Cons.IH catalogerStep_failed catalogerStep_succeeded)
qed

lemma loop_errs:
  "errs (foldl (catalogerStep env r rel) st cs) = aggregate (errs st) (failures r cs)"
proof (induction cs arbitrary: st)
  case Nil
  then show ?case by (simp add: aggregate_def failures_def)
next
  case (Cons c cs)
  show ?case
    by (cases "catalogerError r c")
       (simp_all add: Cons.IH catalogerStep_failed catalogerStep_succeeded aggregate_def
          failures_def)
qed

lemma loop_catalog:
  "catalog (foldl (catalogerStep env r rel) st cs) =
     foldl Add (catalog st) (map (synthesizeIdentifiers env rel) (discovered r cs))"
proof (induction cs arbitrary: st)
  case Nil
  then show ?case by (simp add: discovered_def succeeded_def)
next
  case (Cons c cs)
  show ?case
    by (cases "catalogerError r c")
       (simp_all add: Cons.IH catalogerStep_failed catalogerStep_succeeded discovered_def
          succeeded_def)
qed

lemma loop_allRelationships:
  "allRelationships (foldl (catalogerStep env r rel) st cs) =
     allRelationships st @ concat (map (catalogerKept env r rel) (succeeded r cs))"
proof (induction cs arbitrary: st)
  case Nil
  then show ?case by (simp add: succeeded_def)
next
  case (Cons c cs)
  show ?case
    by (cases "catalogerError r c")
       (simp_all add: Cons.IH catalogerStep_failed catalogerStep_succeeded succeeded_def)
qed

lemma loop_packagesDiscovered:
  "packagesDiscovered (foldl (catalogerStep env r rel) st cs) =
     (packagesDiscovered st)
       \<lparr>N := N (packagesDiscovered st) + of_nat (length (discovered r cs))\<rparr>"
proof (induction cs arbitrary: st)
  case Nil
  then show ?case by (simp add: discovered_def succeeded_def)
next
  case (Cons c cs)
  show ?case
    by (cases "catalogerError r c")
       (simp_all add: Cons.IH catalogerStep_failed catalogerStep_succeeded discovered_def
          succeeded_def)
qed

lemma loop_filesProcessed:
  "filesProcessed (foldl (catalogerStep env r rel) st cs) = filesProcessed st"
proof (induction cs arbitrary: st)
  case Nil
  then show ?case by simp
next
  case (Cons c cs)
  show ?case
    by (cases "catalogerError r c")
       (simp_all add: Cons.IH catalogerStep_failed catalogerStep_succeeded)
qed

lemma aggregate_Some:
  "aggregate (Some (MultiError es0)) es = Some (MultiError (es0 @ concat (map flatten es)))"
  unfolding aggregate_def by (induction es arbitrary: es0) simp_all

lemma aggregate_None:
  "aggregate None es = (if es = [] then None else Some (MultiError (concat (map flatten es))))"
proof (cases es)
  case Nil
  then show ?thesis by (simp add: aggregate_def)
next
  case (Cons e es')
  have "aggregate None (e # es') = aggregate (Some (MultiError (flatten e))) es'"
    by (simp add: aggregate_def)
  with Cons show ?thesis by (simp add: aggregate_Some)
qed

section \<open>Ownership derivation\<close>

lemma ownedPaths_ok:
  "\<forall>path\<in>set paths. snd (FilesByPath r path) = None \<Longrightarrow>
   ownedPaths p r paths rs =
     (rs @ concat (map (\<lambda>path. map (\<lambda>l. \<lparr>From = PackageNode p, To = CoordinatesNode (Coordinates l),
                     RType = ContainsRelationship\<rparr>) (fst (FilesByPath r path))) paths), None)"
proof (induction paths arbitrary: rs)
  case Nil
  then show ?case by simp
next
  case (Cons path paths)
  obtain ls e where f: "FilesByPath r path = (ls, e)" by (cases "FilesByPath r path")
  with Cons.prems have e: "e = None" by simp
  from Cons.prems have rest: "\<forall>path\<in>set paths. snd (FilesByPath r path) = None" by simp
  show ?case using Cons.IH [OF rest] f e by (simp add: ownedLocations_eq)
qed

lemma ownedPaths_find:
  "find (\<lambda>path. snd (FilesByPath r path) \<noteq> None) paths = Some path0 \<Longrightarrow>
   ownedPaths p r paths rs = ([], Some (Errorf path0 (the (snd (FilesByPath r path0)))))"
proof (induction paths arbitrary: rs)
  case Nil
  then show ?case by simp
next
  case (Cons path paths)
  obtain ls e where f: "FilesByPath r path = (ls, e)" by (cases "FilesByPath r path")
  show ?case
  proof (cases e)
    case None
    with Cons.prems f have "find (\<lambda>path. snd (FilesByPath r path) \<noteq> None) paths = Some path0" by simp
    from Cons.IH [OF this] f None show ?thesis by simp
  next
    case (Some err)
    with Cons.prems f have "path0 = path" by simp
    with f Some show ?thesis by simp
  qed
qed

lemma concat_skip_empty:
  "concat (map f (filter (\<lambda>x. g x \<noteq> []) xs)) = concat (map f xs)"
  if "\<And>x. g x = [] \<Longrightarrow> f x = []"
  using that by (induction xs) auto

text \<open>
  C3. For every package \<open>p\<close> and resolver \<open>r\<close>: when the metadata of \<open>p\<close> does not expose
  the owned-files capability, the derivation returns no relationship and no error. When it
  declares the paths \<open>paths\<close> and no lookup fails, the derivation returns no error and, in
  the order of the declared paths and of the locations found, exactly one Contains
  relationship from \<open>p\<close> to the coordinates of each location of each path that resolves to
  some location; the paths that resolve to nothing contribute nothing.
\<close>

theorem ownership_derivation:
  "(asFileOwner (Metadata p) = None \<longrightarrow> packageFileOwnershipRelationships p r = ([], None)) \<and>
   (asFileOwner (Metadata p) = Some paths \<and> (\<forall>path\<in>set paths. snd (FilesByPath r path) = None) \<longrightarrow>
      packageFileOwnershipRelationships p r =
        (concat (map (\<lambda>path. map (\<lambda>l. \<lparr>From = PackageNode p, To = CoordinatesNode (Coordinates l),
                                        RType = ContainsRelationship\<rparr>)
                               (fst (FilesByPath r path)))
                     (filter (\<lambda>path. fst (FilesByPath r path) \<noteq> []) paths)), None))"
proof (intro conjI impI)
  assume "asFileOwner (Metadata p) = None"
  then show "packageFileOwnershipRelationships p r = ([], None)"
    by (simp add: packageFileOwnershipRelationships_def)
next
  assume a: "asFileOwner (Metadata p) = Some paths \<and> (\<forall>path\<in>set paths. snd (FilesByPath r path) = None)"
  let ?edges = "\<lambda>path. map (\<lambda>l. \<lparr>From = PackageNode p, To = CoordinatesNode (Coordinates l),
                                  RType = ContainsRelationship\<rparr>) (fst (FilesByPath r path))"
  have skip: "concat (map ?edges (filter (\<lambda>path. fst (FilesByPath r path) \<noteq> []) paths))
      = concat (map ?edges paths)"
    by (rule concat_skip_empty) simp
  from a have "packageFileOwnershipRelationships p r = ownedPaths p r paths []"
    by (simp add: packageFileOwnershipRelationships_def)
  also from a have "\<dots> = ([] @ concat (map ?edges paths), None)"
    by (intro ownedPaths_ok) simp
  finally show "packageFileOwnershipRelationships p r =
      (concat (map ?edges (filter (\<lambda>path. fst (FilesByPath r path) \<noteq> []) paths)), None)"
    using skip by simp
qed

text \<open>
  The sample: \<open>package2\<close> declares no owned files; \<open>package1\<close> declares a path that
  resolves to one location and a path that resolves to nothing.
\<close>

theorem ownership_derivation_witness:
  "asFileOwner (Metadata package2) = None \<and>
   packageFileOwnershipRelationships package2 sampleResolver = ([], None) \<and>
   asFileOwner (Metadata package1) = Some [''/usr/bin/x'', ''/usr/bin/gone''] \<and>
   snd (FilesByPath sampleResolver ''/usr/bin/x'') = None \<and>
   snd (FilesByPath sampleResolver ''/usr/bin/gone'') = None \<and>
   packageFileOwnershipRelationships package1 sampleResolver =
     ([\<lparr>From = PackageNode package1,
        To = CoordinatesNode \<lparr>RealPath = ''/usr/bin/x'', FileSystemID = ''layer0''\<rparr>,
        RType = ContainsRelationship\<rparr>], None)"
  using ownership_derivation [of package2 sampleResolver "[]"]
    ownership_derivation [of package1 sampleResolver "[''/usr/bin/x'', ''/usr/bin/gone'']"]
  by (simp add: package1_def package2_def sampleResolver_def locationX_def)

text \<open>
  C10. When the lookup of a declared path returns an error, the derivation returns no
  relationship (a nil list) together with the error of the first such path, wrapped with
  that path: the Contains relationships derived for the paths before it are dropped.
\<close>

theorem ownership_lookup_error:
  "asFileOwner (Metadata p) = Some paths \<Longrightarrow>
   find (\<lambda>path. snd (FilesByPath r path) \<noteq> None) paths = Some path0 \<Longrightarrow>
   packageFileOwnershipRelationships p r =
     ([], Some (Errorf path0 (the (snd (FilesByPath r path0)))))"
  by (simp add: packageFileOwnershipRelationships_def ownedPaths_find)

text \<open>
  The sample: the first declared path of \<open>package3\<close> resolves to a location, the lookup of
  the second fails.
\<close>

theorem ownership_lookup_error_witness:
  "asFileOwner (Metadata package3) = Some [''/usr/bin/x'', ''/proc/broken'', ''/usr/bin/x''] \<and>
   find (\<lambda>path. snd (FilesByPath sampleResolver path) \<noteq> None)
     [''/usr/bin/x'', ''/proc/broken'', ''/usr/bin/x''] = Some ''/proc/broken'' \<and>
   fst (FilesByPath sampleResolver ''/usr/bin/x'') = [locationX] \<and>
   packageFileOwnershipRelationships package3 sampleResolver =
     ([], Some (Errorf ''/proc/broken'' (Error ''io'')))"
  using ownership_lookup_error [of package3 "[''/usr/bin/x'', ''/proc/broken'', ''/usr/bin/x'']"
      sampleResolver "''/proc/broken''"]
  by (simp add: package3_def sampleResolver_def)

section \<open>The run in closed form\<close>

lemma Catalog_result:
  "fst (Catalog env r rel cs) =
     (if failures r cs = []
      then (Some (builtCatalog env r rel cs),
            concat (map (catalogerKept env r rel) (succeeded r cs)) @
              pkg_NewRelationships env (builtCatalog env r rel cs),
            None)
      else (None, [], Some (MultiError (concat (map flatten (failures r cs))))))"
  by (simp add: Catalog_def Let_def loop_errs loop_catalog loop_allRelationships aggregate_None
      initialState_def builtCatalog_def)

lemma Catalog_effects:
  "effects (snd (Catalog env r rel cs)) =
     concat (map (catalogerEffects env r rel) cs) @ [Call_NewRelationships (builtCatalog env r rel cs)]"
  by (simp add: Catalog_def Let_def loop_errs loop_catalog loop_effects aggregate_None
      initialState_def builtCatalog_def)

lemma Catalog_packagesDiscovered:
  "packagesDiscovered (snd (Catalog env r rel cs)) =
     \<lparr>N = of_nat (length (discovered r cs)), Completed = (failures r cs = [])\<rparr>"
  by (simp add: Catalog_def Let_def loop_errs loop_packagesDiscovered aggregate_None
      initialState_def SetCompleted_def)

lemma Catalog_filesProcessed:
  "filesProcessed (snd (Catalog env r rel cs)) = \<lparr>N = 0, Completed = (failures r cs = [])\<rparr>"
  by (simp add: Catalog_def Let_def loop_errs loop_filesProcessed aggregate_None
      initialState_def SetCompleted_def)

lemma failures_empty_iff:
  "failures r cs = [] \<longleftrightarrow> (\<forall>c\<in>set cs. catalogerError r c = None)"
  by (induction cs) (auto simp: failures_def split: option.splits)

lemma succeeded_all:
  "failures r cs = [] \<Longrightarrow> succeeded r cs = cs"
  by (simp add: failures_empty_iff succeeded_def)

lemma catalogerCalls_append:
  "catalogerCalls (xs @ ys) = catalogerCalls xs @ catalogerCalls ys"
  by (induction xs rule: catalogerCalls.induct) simp_all

lemma synthesizerCalls_append:
  "synthesizerCalls (xs @ ys) = synthesizerCalls xs @ synthesizerCalls ys"
  by (induction xs rule: synthesizerCalls.induct) simp_all

lemma calls_warnings:
  "catalogerCalls (concat (map (ownershipWarning env r rel) ps)) = []"
  "synthesizerCalls (concat (map (ownershipWarning env r rel) ps)) = []"
  by (induction ps)
     (simp_all add: catalogerCalls_append synthesizerCalls_append ownershipWarning_def
        split: prod.splits option.splits)

lemma calls_catalogerEffects:
  "catalogerCalls (catalogerEffects env r rel c) = [CatalogerName c]"
  "synthesizerCalls (catalogerEffects env r rel c) = []"
  by (simp_all add: catalogerEffects_def calls_warnings split: option.splits)

lemma calls_loop:
  "catalogerCalls (concat (map (catalogerEffects env r rel) cs)) = map CatalogerName cs"
  "synthesizerCalls (concat (map (catalogerEffects env r rel) cs)) = []"
  by (induction cs)
     (simp_all add: catalogerCalls_append synthesizerCalls_append calls_catalogerEffects)

lemma PackageID_Locations: "PackageID (q\<lparr>Locations := ls\<rparr>) = PackageID q"
  by (simp add: PackageID_def)

lemma Add_ids:
  "map PackageID (Add c p) =
     (if PackageID p \<in> set (map PackageID c) then map PackageID c
      else map PackageID c @ [PackageID p])"
  by (induction c) (auto simp: PackageID_Locations)

lemma foldl_Add_distinct:
  "distinct (map PackageID c) \<Longrightarrow> distinct (map PackageID (foldl Add c ps))"
  by (induction ps arbitrary: c) (simp_all add: Add_ids)

lemma Add_idset: "PackageID ` set (Add c p) = insert (PackageID p) (PackageID ` set c)"
proof -
  have "set (map PackageID (Add c p)) = insert (PackageID p) (set (map PackageID c))"
    unfolding Add_ids by auto
  then show ?thesis by simp
qed

lemma foldl_Add_ids:
  "PackageID ` set (foldl Add c ps) = PackageID ` set c \<union> PackageID ` set ps"
  by (induction ps arbitrary: c) (simp_all add: Add_idset)

lemma builtCatalog_distinct: "distinct (map PackageID (builtCatalog env r rel cs))"
  by (simp add: builtCatalog_def NewCatalog_def foldl_Add_distinct)

lemma builtCatalog_ids:
  "PackageID ` set (builtCatalog env r rel cs) = PackageID ` set (discovered r cs)"
  by (simp add: builtCatalog_def NewCatalog_def foldl_Add_ids image_image synth_PackageID)

lemma aggregate_failures_None:
  "aggregate None (failures r cs) = None \<longleftrightarrow> (\<forall>c\<in>set cs. catalogerError r c = None)"
  by (simp add: aggregate_None failures_empty_iff)

lemma Catalog_error:
  "snd (snd (fst (Catalog env r rel cs))) = aggregate None (failures r cs)"
  by (simp add: Catalog_result aggregate_None)

lemma Catalog_allRelationships:
  "allRelationships (snd (Catalog env r rel cs)) =
     concat (map (catalogerKept env r rel) (succeeded r cs)) @
       pkg_NewRelationships env (builtCatalog env r rel cs)"
  by (simp add: Catalog_def Let_def loop_errs loop_catalog loop_allRelationships aggregate_None
      initialState_def builtCatalog_def)

lemma sample_eval:
  "catalogerError sampleResolver catalogerA = None"
  "catalogerError sampleResolver catalogerB = None"
  "catalogerError sampleResolver catalogerC = None"
  "catalogerError sampleResolver catalogerFailing = Some (Error ''E'')"
  "catalogerPackages sampleResolver catalogerA = [package1]"
  "catalogerPackages sampleResolver catalogerB = [package2, package1]"
  "catalogerPackages sampleResolver catalogerC = [package3]"
  "catalogerPackages sampleResolver catalogerFailing = [package2]"
  "catalogerRelationships sampleResolver catalogerA = []"
  "catalogerRelationships sampleResolver catalogerB = []"
  "catalogerRelationships sampleResolver catalogerC = []"
  "CatalogerName catalogerA = ''A''"
  "CatalogerName catalogerB = ''B''"
  "CatalogerName catalogerC = ''C''"
  "CatalogerName catalogerFailing = ''B''"
  by (simp_all add: catalogerError_def catalogerPackages_def catalogerRelationships_def
      catalogerA_def catalogerB_def catalogerC_def catalogerFailing_def)

section \<open>The failure policy of a run\<close>

text \<open>
  C1. In every run of \<open>Catalog\<close> every cataloger of the list is invoked, in order,
  whether or not an earlier one has returned an error. When some cataloger returns an
  error, the run returns a nil catalog, a nil relationship list and the aggregate of the
  errors, which is not nil; when none does, the returned error is nil.
\<close>

theorem Catalog_failure_policy:
  "catalogerCalls (effects (snd (Catalog env r rel cs))) = map CatalogerName cs \<and>
   ((\<exists>c\<in>set cs. catalogerError r c \<noteq> None) \<longrightarrow>
      aggregate None (failures r cs) \<noteq> None \<and>
      fst (Catalog env r rel cs) = (None, [], aggregate None (failures r cs))) \<and>
   ((\<forall>c\<in>set cs. catalogerError r c = None) \<longrightarrow>
      snd (snd (fst (Catalog env r rel cs))) = None)"
proof (intro conjI impI)
  show "catalogerCalls (effects (snd (Catalog env r rel cs))) = map CatalogerName cs"
    by (simp add: Catalog_effects catalogerCalls_append calls_loop)
next
  assume "\<exists>c\<in>set cs. catalogerError r c \<noteq> None"
  then have f: "failures r cs \<noteq> []" by (simp add: failures_empty_iff)
  then show "aggregate None (failures r cs) \<noteq> None" by (simp add: aggregate_None)
  from f show "fst (Catalog env r rel cs) = (None, [], aggregate None (failures r cs))"
    by (simp add: Catalog_result aggregate_None)
next
  assume "\<forall>c\<in>set cs. catalogerError r c = None"
  then show "snd (snd (fst (Catalog env r rel cs))) = None"
    by (simp add: Catalog_error aggregate_failures_None)
qed

text \<open>
  The sample: the first of three catalogers fails, the other two are still invoked and
  nothing but the error is returned; without the failing cataloger the error is nil.
\<close>

theorem Catalog_failure_policy_witness:
  "catalogerError sampleResolver catalogerFailing = Some (Error ''E'') \<and>
   catalogerCalls (effects (snd (Catalog sampleEnv sampleResolver None
      [catalogerFailing, catalogerA, catalogerC]))) = [''B'', ''A'', ''C''] \<and>
   fst (Catalog sampleEnv sampleResolver None [catalogerFailing, catalogerA, catalogerC]) =
     (None, [], Some (MultiError [Error ''E''])) \<and>
   catalogerError sampleResolver catalogerA = None \<and>
   catalogerError sampleResolver catalogerC = None \<and>
   snd (snd (fst (Catalog sampleEnv sampleResolver None [catalogerA, catalogerC]))) = None"
  using Catalog_failure_policy [of sampleEnv sampleResolver None
      "[catalogerFailing, catalogerA, catalogerC]"]
    Catalog_failure_policy [of sampleEnv sampleResolver None "[catalogerA, catalogerC]"]
  by (simp add: sample_eval failures_def aggregate_def)

section \<open>The error, the synthesizer and the progress monitor of a run\<close>



lemma Catalog_synthesizerCalls:
  "synthesizerCalls (effects (snd (Catalog env r rel cs))) = [builtCatalog env r rel cs]"
  by (simp add: Catalog_effects synthesizerCalls_append calls_loop)




text \<open>
  Against C6 as the spec states it. The sample run of \<open>catalogerA\<close> and
  \<open>catalogerFailing\<close> returns an error, and
  \<^verbatim>\<open>pkg.NewRelationships\<close> has been called in it, on the catalog that holds the package of
  \<open>catalogerA\<close>.
\<close>

theorem Catalog_synthesizer_on_failure_example:
  "snd (snd (fst (Catalog sampleEnv sampleResolver None [catalogerA, catalogerFailing]))) =
     Some (MultiError [Error ''E'']) \<and>
   synthesizerCalls (effects (snd (Catalog sampleEnv sampleResolver None
      [catalogerA, catalogerFailing]))) =
     [[package1\<lparr>CPEs := [''cpe:p1''], PURL := ''pkg:p1''\<rparr>]]"
  by (simp add: Catalog_error Catalog_synthesizerCalls sample_eval
      failures_def aggregate_def builtCatalog_def discovered_def succeeded_def NewCatalog_def
      synthesizeIdentifiers_def sampleEnv_def package1_def)

text \<open>
  C6 (as the code has it). In every run of \<open>Catalog\<close>, whether or not a cataloger has
  returned an error, \<^verbatim>\<open>pkg.NewRelationships\<close> is called exactly once, as the last effect
  of the run and so after every cataloger has been attempted, on the catalog built from
  the packages of the catalogers that returned no error; its output is appended to
  \<open>allRelationships\<close>, and that list is returned when no cataloger has failed (a nil list
  otherwise).
\<close>

theorem Catalog_synthesizer_once:
  "effects (snd (Catalog env r rel cs)) =
     concat (map (catalogerEffects env r rel) cs) @
       [Call_NewRelationships (builtCatalog env r rel cs)] \<and>
   synthesizerCalls (effects (snd (Catalog env r rel cs))) = [builtCatalog env r rel cs] \<and>
   allRelationships (snd (Catalog env r rel cs)) =
     concat (map (catalogerKept env r rel) (succeeded r cs)) @
       pkg_NewRelationships env (builtCatalog env r rel cs) \<and>
   fst (snd (fst (Catalog env r rel cs))) =
     (if failures r cs = [] then allRelationships (snd (Catalog env r rel cs)) else [])"
proof (intro conjI)
  show "effects (snd (Catalog env r rel cs)) =
      concat (map (catalogerEffects env r rel) cs) @
        [Call_NewRelationships (builtCatalog env r rel cs)]"
    by (rule Catalog_effects)
  show "synthesizerCalls (effects (snd (Catalog env r rel cs))) = [builtCatalog env r rel cs]"
    by (rule Catalog_synthesizerCalls)
  show "allRelationships (snd (Catalog env r rel cs)) =
      concat (map (catalogerKept env r rel) (succeeded r cs)) @
        pkg_NewRelationships env (builtCatalog env r rel cs)"
    by (rule Catalog_allRelationships)
  show "fst (snd (fst (Catalog env r rel cs))) =
      (if failures r cs = [] then allRelationships (snd (Catalog env r rel cs)) else [])"
    by (simp add: Catalog_allRelationships Catalog_result)
qed

text \<open>
  The sample: a run of \<open>catalogerA\<close> alone; the call is the last effect and its output
  the last relationship returned.
\<close>

theorem Catalog_synthesizer_once_witness:
  "synthesizerCalls (effects (snd (Catalog sampleEnv sampleResolver None [catalogerA]))) =
     [[package1\<lparr>CPEs := [''cpe:p1''], PURL := ''pkg:p1''\<rparr>]] \<and>
   effects (snd (Catalog sampleEnv sampleResolver None [catalogerA])) =
     [Debugf_cataloging ''A'', Call_Catalog ''A'', Debugf_discovered 1,
      Call_NewRelationships [package1\<lparr>CPEs := [''cpe:p1''], PURL := ''pkg:p1''\<rparr>]] \<and>
   fst (snd (fst (Catalog sampleEnv sampleResolver None [catalogerA]))) =
     [\<lparr>From = PackageNode (package1\<lparr>CPEs := [''cpe:p1''], PURL := ''pkg:p1''\<rparr>),
       To = CoordinatesNode \<lparr>RealPath = ''/usr/bin/x'', FileSystemID = ''layer0''\<rparr>,
       RType = ContainsRelationship\<rparr>,
      \<lparr>From = PackageNode (package1\<lparr>CPEs := [''cpe:p1''], PURL := ''pkg:p1''\<rparr>),
       To = PackageNode (package1\<lparr>CPEs := [''cpe:p1''], PURL := ''pkg:p1''\<rparr>),
       RType = DependencyOfRelationship\<rparr>]"
proof -
  have s1: "synthesizeIdentifiers sampleEnv None package1 =
      package1\<lparr>CPEs := [''cpe:p1''], PURL := ''pkg:p1''\<rparr>"
    by (simp add: synthesizeIdentifiers_def sampleEnv_def package1_def)
  have o1: "packageFileOwnershipRelationships (package1\<lparr>CPEs := [''cpe:p1''], PURL := ''pkg:p1''\<rparr>)
        sampleResolver =
      ([\<lparr>From = PackageNode (package1\<lparr>CPEs := [''cpe:p1''], PURL := ''pkg:p1''\<rparr>),
         To = CoordinatesNode \<lparr>RealPath = ''/usr/bin/x'', FileSystemID = ''layer0''\<rparr>,
         RType = ContainsRelationship\<rparr>], None)"
    by (simp add: packageFileOwnershipRelationships_def package1_def sampleResolver_def
        ownedLocations_def locationX_def)
  have b: "builtCatalog sampleEnv sampleResolver None [catalogerA] =
      [package1\<lparr>CPEs := [''cpe:p1''], PURL := ''pkg:p1''\<rparr>]"
    by (simp add: builtCatalog_def discovered_def succeeded_def sample_eval NewCatalog_def s1)
  have n: "pkg_NewRelationships sampleEnv [package1\<lparr>CPEs := [''cpe:p1''], PURL := ''pkg:p1''\<rparr>] =
      [\<lparr>From = PackageNode (package1\<lparr>CPEs := [''cpe:p1''], PURL := ''pkg:p1''\<rparr>),
        To = PackageNode (package1\<lparr>CPEs := [''cpe:p1''], PURL := ''pkg:p1''\<rparr>),
        RType = DependencyOfRelationship\<rparr>]"
    by (simp add: sampleEnv_def)
  have f: "failures sampleResolver [catalogerA] = []"
    by (simp add: failures_def sample_eval)
  have k: "catalogerKept sampleEnv sampleResolver None catalogerA =
      [\<lparr>From = PackageNode (package1\<lparr>CPEs := [''cpe:p1''], PURL := ''pkg:p1''\<rparr>),
        To = CoordinatesNode \<lparr>RealPath = ''/usr/bin/x'', FileSystemID = ''layer0''\<rparr>,
        RType = ContainsRelationship\<rparr>]"
    by (simp add: catalogerKept_def keptOwnership_def sample_eval s1 o1)
  have e: "catalogerEffects sampleEnv sampleResolver None catalogerA =
      [Debugf_cataloging ''A'', Call_Catalog ''A'', Debugf_discovered 1]"
    by (simp add: catalogerEffects_def ownershipWarning_def sample_eval s1 o1)
  show ?thesis
    using Catalog_synthesizer_once [of sampleEnv sampleResolver None "[catalogerA]"]
    by (simp add: b n f k e succeeded_def sample_eval)
qed

text \<open>
  Against C7 as the spec states it. The sample run of \<open>catalogerA\<close> and
  \<open>catalogerFailing\<close>, each returning one package: the
  counter of discovered packages ends at 1, not at 2, the package that came with the
  error is not counted.
\<close>

theorem Catalog_progress_failing_example:
  "catalogerPackages sampleResolver catalogerA = [package1] \<and>
   catalogerPackages sampleResolver catalogerFailing = [package2] \<and>
   catalogerError sampleResolver catalogerFailing = Some (Error ''E'') \<and>
   N (packagesDiscovered (snd (Catalog sampleEnv sampleResolver None
      [catalogerA, catalogerFailing]))) = 1 \<and>
   N (packagesDiscovered (snd (Catalog sampleEnv sampleResolver None
      [catalogerA, catalogerFailing]))) \<noteq> 2"
  by (simp add: Catalog_packagesDiscovered sample_eval discovered_def succeeded_def)

text \<open>
  C7 (as the code has it). In every run of \<open>Catalog\<close> the counter of discovered packages
  (an \<^verbatim>\<open>int64\<close>, starting at 0) is advanced by the number of packages of each cataloger
  that returns no error, also when another cataloger of the run fails; the packages
  returned by a failing cataloger are not counted. Both counters of the monitor are marked
  completed exactly when the run returns no error.
\<close>

theorem Catalog_progress:
  "N (packagesDiscovered (snd (Catalog env r rel cs))) =
     of_nat (sum_list (map (\<lambda>c. length (catalogerPackages r c)) (succeeded r cs))) \<and>
   Completed (packagesDiscovered (snd (Catalog env r rel cs))) =
     (snd (snd (fst (Catalog env r rel cs))) = None) \<and>
   Completed (filesProcessed (snd (Catalog env r rel cs))) =
     (snd (snd (fst (Catalog env r rel cs))) = None)"
  by (simp add: Catalog_packagesDiscovered Catalog_filesProcessed Catalog_error aggregate_None
      discovered_def length_concat comp_def)

text \<open>
  The sample: one and two packages are counted around a failing cataloger, and nothing
  is marked completed; the run of \<open>catalogerA\<close> alone is marked completed.
\<close>

theorem Catalog_progress_witness:
  "N (packagesDiscovered (snd (Catalog sampleEnv sampleResolver None
      [catalogerA, catalogerFailing, catalogerB]))) = 3 \<and>
   Completed (packagesDiscovered (snd (Catalog sampleEnv sampleResolver None
      [catalogerA, catalogerFailing, catalogerB]))) = False \<and>
   Completed (filesProcessed (snd (Catalog sampleEnv sampleResolver None
      [catalogerA, catalogerFailing, catalogerB]))) = False \<and>
   Completed (packagesDiscovered (snd (Catalog sampleEnv sampleResolver None [catalogerA]))) = True"
  using Catalog_progress [of sampleEnv sampleResolver None "[catalogerA, catalogerFailing, catalogerB]"]
    Catalog_progress [of sampleEnv sampleResolver None "[catalogerA]"]
  by (simp add: sample_eval succeeded_def Catalog_error failures_def aggregate_def)

section \<open>Identifier synthesis\<close>

text \<open>
  C9. For every package \<open>p\<close> that a cataloger returns, the package that the loop adds to
  the catalog is \<open>p\<close> with the CPEs set to \<^verbatim>\<open>cpe.Generate(p)\<close> and the PURL then set to
  \<^verbatim>\<open>pkg.URL\<close> of that package: name, version, type, metadata, licenses and locations are
  those of \<open>p\<close>.
\<close>

theorem identifier_synthesis_frame:
  "catalog (packageStep env r rel st p) = Add (catalog st) (synthesizeIdentifiers env rel p) \<and>
   synthesizeIdentifiers env rel p =
     p\<lparr>CPEs := cpe_Generate env p, PURL := pkg_URL env (p\<lparr>CPEs := cpe_Generate env p\<rparr>) rel\<rparr> \<and>
   Name (synthesizeIdentifiers env rel p) = Name p \<and>
   Version (synthesizeIdentifiers env rel p) = Version p \<and>
   Type (synthesizeIdentifiers env rel p) = Type p \<and>
   Metadata (synthesizeIdentifiers env rel p) = Metadata p \<and>
   Licenses (synthesizeIdentifiers env rel p) = Licenses p \<and>
   Locations (synthesizeIdentifiers env rel p) = Locations p"
  by (simp add: packageStep_eq synth_fields) (simp add: synthesizeIdentifiers_def Let_def)

text \<open>The sample: the identifiers of \<open>package1\<close>.\<close>

theorem identifier_synthesis_frame_witness:
  "synthesizeIdentifiers sampleEnv None package1 =
     package1\<lparr>CPEs := [''cpe:p1''], PURL := ''pkg:p1''\<rparr> \<and>
   Name (synthesizeIdentifiers sampleEnv None package1) = ''p1'' \<and>
   Metadata (synthesizeIdentifiers sampleEnv None package1) =
     FileOwnerMetadata [''/usr/bin/x'', ''/usr/bin/gone'']"
  using identifier_synthesis_frame [of sampleEnv sampleResolver None initialState package1]
  by (simp add: sampleEnv_def package1_def)

section \<open>Membership in a run\<close>

lemma ownershipWarning_failed:
  assumes "asFileOwner (Metadata p) = Some paths"
    and "find (\<lambda>path. snd (FilesByPath r path) \<noteq> None) paths = Some path0"
  shows "packageFileOwnershipRelationships (synthesizeIdentifiers env rel p) r =
           ([], Some (Errorf path0 (the (snd (FilesByPath r path0)))))"
    and "ownershipWarning env r rel p =
           [Warnf_ownership (Name p) (Errorf path0 (the (snd (FilesByPath r path0))))]"
    and "keptOwnership env r rel p = []"
proof -
  show a: "packageFileOwnershipRelationships (synthesizeIdentifiers env rel p) r =
           ([], Some (Errorf path0 (the (snd (FilesByPath r path0)))))"
    using assms by (simp add: packageFileOwnershipRelationships_def ownedPaths_find synth_fields)
  show "ownershipWarning env r rel p =
           [Warnf_ownership (Name p) (Errorf path0 (the (snd (FilesByPath r path0))))]"
    by (simp add: ownershipWarning_def a)
  show "keptOwnership env r rel p = []"
    by (simp add: keptOwnership_def a)
qed

lemma warning_in_effects:
  assumes "c \<in> set cs" and "catalogerError r c = None" and "p \<in> set (catalogerPackages r c)"
    and "w \<in> set (ownershipWarning env r rel p)"
  shows "w \<in> set (effects (snd (Catalog env r rel cs)))"
proof -
  from assms(2,3,4) have "w \<in> set (catalogerEffects env r rel c)"
    by (auto simp: catalogerEffects_def)
  with assms(1) show ?thesis by (auto simp: Catalog_effects)
qed

lemma discovered_mem:
  assumes "c \<in> set cs" and "catalogerError r c = None" and "p \<in> set (catalogerPackages r c)"
  shows "p \<in> set (discovered r cs)"
  using assms by (auto simp: discovered_def succeeded_def)

section \<open>Ownership failures do not fail the run\<close>

text \<open>
  C4. Let the lookup of a declared path of the package \<open>p\<close> fail, \<open>path0\<close> being the first
  such path. Then the derivation for \<open>p\<close> (with its identifiers attached) returns nothing
  but the lookup error wrapped with \<open>path0\<close>; the turn of the package loop for \<open>p\<close> logs
  a warning with that error, adds \<open>p\<close> to the catalog and changes nothing else of the
  state, \<open>errs\<close> in particular. The error of a run is the aggregate of the errors of its
  catalogers alone; so a run in which no cataloger fails and some cataloger returns \<open>p\<close>
  returns a nil error, has logged the warning, and returns a catalog that holds a package
  with the identity of \<open>p\<close>.
\<close>

theorem ownership_failure_is_local:
  assumes "asFileOwner (Metadata p) = Some paths"
    and "find (\<lambda>path. snd (FilesByPath r path) \<noteq> None) paths = Some path0"
  shows "packageFileOwnershipRelationships (synthesizeIdentifiers env rel p) r =
           ([], Some (Errorf path0 (the (snd (FilesByPath r path0))))) \<and>
         packageStep env r rel st p =
           st\<lparr>effects := effects st @
                 [Warnf_ownership (Name p) (Errorf path0 (the (snd (FilesByPath r path0))))],
              catalog := Add (catalog st) (synthesizeIdentifiers env rel p)\<rparr> \<and>
         snd (snd (fst (Catalog env r rel cs))) = aggregate None (failures r cs) \<and>
         (c \<in> set cs \<and> p \<in> set (catalogerPackages r c) \<and>
            (\<forall>c\<in>set cs. catalogerError r c = None) \<longrightarrow>
            snd (snd (fst (Catalog env r rel cs))) = None \<and>
            Warnf_ownership (Name p) (Errorf path0 (the (snd (FilesByPath r path0))))
              \<in> set (effects (snd (Catalog env r rel cs))) \<and>
            fst (fst (Catalog env r rel cs)) = Some (builtCatalog env r rel cs) \<and>
            PackageID p \<in> PackageID ` set (builtCatalog env r rel cs))"
proof (intro conjI impI)
  note w = ownershipWarning_failed [OF assms, of env rel]
  show "packageFileOwnershipRelationships (synthesizeIdentifiers env rel p) r =
           ([], Some (Errorf path0 (the (snd (FilesByPath r path0)))))"
    by (rule w(1))
  show "packageStep env r rel st p =
           st\<lparr>effects := effects st @
                 [Warnf_ownership (Name p) (Errorf path0 (the (snd (FilesByPath r path0))))],
              catalog := Add (catalog st) (synthesizeIdentifiers env rel p)\<rparr>"
    by (simp add: packageStep_eq w)
  show "snd (snd (fst (Catalog env r rel cs))) = aggregate None (failures r cs)"
    by (rule Catalog_error)
  assume run: "c \<in> set cs \<and> p \<in> set (catalogerPackages r c) \<and>
            (\<forall>c\<in>set cs. catalogerError r c = None)"
  then have ok: "failures r cs = []" by (simp add: failures_empty_iff)
  from ok show "snd (snd (fst (Catalog env r rel cs))) = None"
    by (simp add: Catalog_result)
  from run show "Warnf_ownership (Name p) (Errorf path0 (the (snd (FilesByPath r path0))))
              \<in> set (effects (snd (Catalog env r rel cs)))"
    by (intro warning_in_effects [of c cs r p]) (simp_all add: w)
  from ok show "fst (fst (Catalog env r rel cs)) = Some (builtCatalog env r rel cs)"
    by (simp add: Catalog_result)
  from run have "p \<in> set (discovered r cs)"
    by (intro discovered_mem [of c]) simp_all
  then show "PackageID p \<in> PackageID ` set (builtCatalog env r rel cs)"
    by (simp add: builtCatalog_ids)
qed


text \<open>
  The sample: the lookup of the second path of \<open>package3\<close> fails, in a run of two
  catalogers without an error.
\<close>

theorem ownership_failure_is_local_witness:
  "asFileOwner (Metadata package3) = Some [''/usr/bin/x'', ''/proc/broken'', ''/usr/bin/x''] \<and>
   find (\<lambda>path. snd (FilesByPath sampleResolver path) \<noteq> None)
     [''/usr/bin/x'', ''/proc/broken'', ''/usr/bin/x''] = Some ''/proc/broken'' \<and>
   packageFileOwnershipRelationships (synthesizeIdentifiers sampleEnv None package3) sampleResolver =
     ([], Some (Errorf ''/proc/broken'' (Error ''io''))) \<and>
   catalogerError sampleResolver catalogerA = None \<and>
   catalogerError sampleResolver catalogerC = None \<and>
   package3 \<in> set (catalogerPackages sampleResolver catalogerC) \<and>
   snd (snd (fst (Catalog sampleEnv sampleResolver None [catalogerA, catalogerC]))) = None \<and>
   Warnf_ownership ''p3'' (Errorf ''/proc/broken'' (Error ''io''))
     \<in> set (effects (snd (Catalog sampleEnv sampleResolver None [catalogerA, catalogerC]))) \<and>
   PackageID package3
     \<in> PackageID ` set (the (fst (fst (Catalog sampleEnv sampleResolver None [catalogerA, catalogerC]))))"
proof -
  have h1: "asFileOwner (Metadata package3) = Some [''/usr/bin/x'', ''/proc/broken'', ''/usr/bin/x'']"
    by (simp add: package3_def)
  have h2: "find (\<lambda>path. snd (FilesByPath sampleResolver path) \<noteq> None)
     [''/usr/bin/x'', ''/proc/broken'', ''/usr/bin/x''] = Some ''/proc/broken''"
    by (simp add: sampleResolver_def)
  have e: "the (snd (FilesByPath sampleResolver ''/proc/broken'')) = Error ''io''"
    by (simp add: sampleResolver_def)
  have n: "Name package3 = ''p3''" by (simp add: package3_def)
  show ?thesis
    using ownership_failure_is_local [OF h1 h2, of sampleEnv None initialState
        "[catalogerA, catalogerC]" catalogerC] h1 h2
    by (simp add: e n sample_eval failures_def aggregate_def)
qed

section \<open>The catalog of a successful run\<close>

text \<open>
  What \<open>Add\<close> keeps: every entry of a catalog built by additions is one of the added
  packages up to its locations.
\<close>

lemma sameButLocations_refl: "sameButLocations p p"
  by (simp add: sameButLocations_def)

lemma sameButLocations_update: "sameButLocations q p \<Longrightarrow> sameButLocations (q\<lparr>Locations := ls\<rparr>) p"
  by (simp add: sameButLocations_def)

lemma Add_entries:
  "q \<in> set (Add c p) \<Longrightarrow> \<exists>q'\<in>set c \<union> {p}. sameButLocations q q'"
proof (induction c)
  case Nil
  then show ?case by (simp add: sameButLocations_refl)
next
  case (Cons a c)
  show ?case
  proof (cases "PackageID a = PackageID p")
    case True
    with Cons.prems have "q = a\<lparr>Locations := Locations a @ filter (\<lambda>l. l \<notin> set (Locations a)) (Locations p)\<rparr> \<or> q \<in> set c"
      by simp
    then show ?thesis
    proof
      assume "q = a\<lparr>Locations := Locations a @ filter (\<lambda>l. l \<notin> set (Locations a)) (Locations p)\<rparr>"
      then have "sameButLocations q a"
        by (simp add: sameButLocations_update sameButLocations_refl)
      then show ?thesis by auto
    next
      assume "q \<in> set c"
      then show ?thesis using sameButLocations_refl by auto
    qed
  next
    case False
    with Cons.prems have "q = a \<or> q \<in> set (Add c p)" by simp
    then show ?thesis
    proof
      assume "q = a"
      then show ?thesis using sameButLocations_refl by auto
    next
      assume "q \<in> set (Add c p)"
      from Cons.IH [OF this] show ?thesis by auto
    qed
  qed
qed

lemma sameButLocations_trans:
  "sameButLocations q q' \<Longrightarrow> sameButLocations q' p \<Longrightarrow> sameButLocations q p"
  unfolding sameButLocations_def
  by (metis Package.surjective Package.update_convs(6) Package.select_convs)

lemma foldl_Add_entries:
  "q \<in> set (foldl Add c ps) \<Longrightarrow> \<exists>q'\<in>set c \<union> set ps. sameButLocations q q'"
proof (induction ps arbitrary: c)
  case Nil
  then show ?case using sameButLocations_refl by auto
next
  case (Cons p ps)
  from Cons.prems have "q \<in> set (foldl Add (Add c p) ps)" by simp
  from Cons.IH [OF this] obtain q' where q': "q' \<in> set (Add c p) \<union> set ps" "sameButLocations q q'"
    by blast
  show ?case
  proof (cases "q' \<in> set ps")
    case True
    with q' show ?thesis by auto
  next
    case False
    with q' have "q' \<in> set (Add c p)" by simp
    from Add_entries [OF this] obtain q'' where "q'' \<in> set c \<union> {p}" "sameButLocations q' q''"
      by blast
    with q'(2) show ?thesis using sameButLocations_trans by auto
  qed
qed

text \<open>
  C2. For every run of \<open>Catalog\<close> in which no cataloger returns an error: the run
  returns a nil error and the catalog built by adding, in order, every package of every
  cataloger with its identifiers attached. No two entries of that catalog share an
  identity, the identities of its entries are exactly the identities of the packages the
  catalogers returned, and every entry is one of those packages, with its identifiers
  attached, up to its locations. The returned relationship list is, cataloger by
  cataloger, the ownership relationships derived for its packages (none for a package
  whose derivation failed) followed by the relationships the cataloger reported, and at the
  end the relationships that \<^verbatim>\<open>pkg.NewRelationships\<close> returns for the returned catalog.
\<close>

theorem Catalog_success:
  assumes "\<forall>c\<in>set cs. catalogerError r c = None"
  shows "fst (Catalog env r rel cs) =
           (Some (builtCatalog env r rel cs),
            concat (map (\<lambda>c. concat (map (keptOwnership env r rel) (catalogerPackages r c)) @
                                catalogerRelationships r c) cs) @
              pkg_NewRelationships env (builtCatalog env r rel cs),
            None) \<and>
         distinct (map PackageID (builtCatalog env r rel cs)) \<and>
         PackageID ` set (builtCatalog env r rel cs) =
           PackageID ` (\<Union>c\<in>set cs. set (catalogerPackages r c)) \<and>
         (\<forall>q\<in>set (builtCatalog env r rel cs). \<exists>p\<in>(\<Union>c\<in>set cs. set (catalogerPackages r c)).
            sameButLocations q (synthesizeIdentifiers env rel p))"
proof (intro conjI ballI)
  from assms have ok: "failures r cs = []" by (simp add: failures_empty_iff)
  then have all: "succeeded r cs = cs" by (rule succeeded_all)
  have kept: "catalogerKept env r rel =
      (\<lambda>c. concat (map (keptOwnership env r rel) (catalogerPackages r c)) @
            catalogerRelationships r c)"
    by (rule ext) (simp add: catalogerKept_def)
  show "fst (Catalog env r rel cs) =
           (Some (builtCatalog env r rel cs),
            concat (map (\<lambda>c. concat (map (keptOwnership env r rel) (catalogerPackages r c)) @
                                catalogerRelationships r c) cs) @
              pkg_NewRelationships env (builtCatalog env r rel cs),
            None)"
    using ok all by (simp add: Catalog_result kept)
  show "distinct (map PackageID (builtCatalog env r rel cs))"
    by (rule builtCatalog_distinct)
  have disc: "set (discovered r cs) = (\<Union>c\<in>set cs. set (catalogerPackages r c))"
    by (simp add: discovered_def all)
  show "PackageID ` set (builtCatalog env r rel cs) =
      PackageID ` (\<Union>c\<in>set cs. set (catalogerPackages r c))"
    by (simp only: builtCatalog_ids disc)
  fix q
  assume "q \<in> set (builtCatalog env r rel cs)"
  then have "\<exists>q'\<in>set NewCatalog \<union> set (map (synthesizeIdentifiers env rel) (discovered r cs)).
      sameButLocations q q'"
    unfolding builtCatalog_def by (rule foldl_Add_entries)
  then obtain p where "p \<in> set (discovered r cs)"
      "sameButLocations q (synthesizeIdentifiers env rel p)"
    by (auto simp: NewCatalog_def)
  then show "\<exists>p\<in>(\<Union>c\<in>set cs. set (catalogerPackages r c)).
      sameButLocations q (synthesizeIdentifiers env rel p)"
    unfolding disc [symmetric] by blast
qed

text \<open>
  The sample: \<open>catalogerB\<close> returns \<open>package1\<close> a second time; the catalog holds it
  once, and its ownership relationship is in the list twice.
\<close>

theorem Catalog_success_witness:
  "catalogerError sampleResolver catalogerA = None \<and>
   catalogerError sampleResolver catalogerB = None \<and>
   catalogerPackages sampleResolver catalogerA = [package1] \<and>
   catalogerPackages sampleResolver catalogerB = [package2, package1] \<and>
   fst (Catalog sampleEnv sampleResolver None [catalogerA, catalogerB]) =
     (Some [package1\<lparr>CPEs := [''cpe:p1''], PURL := ''pkg:p1''\<rparr>,
            package2\<lparr>CPEs := [''cpe:p2''], PURL := ''pkg:p2''\<rparr>],
      [\<lparr>From = PackageNode (package1\<lparr>CPEs := [''cpe:p1''], PURL := ''pkg:p1''\<rparr>),
        To = CoordinatesNode \<lparr>RealPath = ''/usr/bin/x'', FileSystemID = ''layer0''\<rparr>,
        RType = ContainsRelationship\<rparr>,
       \<lparr>From = PackageNode (package1\<lparr>CPEs := [''cpe:p1''], PURL := ''pkg:p1''\<rparr>),
        To = CoordinatesNode \<lparr>RealPath = ''/usr/bin/x'', FileSystemID = ''layer0''\<rparr>,
        RType = ContainsRelationship\<rparr>,
       \<lparr>From = PackageNode (package1\<lparr>CPEs := [''cpe:p1''], PURL := ''pkg:p1''\<rparr>),
        To = PackageNode (package1\<lparr>CPEs := [''cpe:p1''], PURL := ''pkg:p1''\<rparr>),
        RType = DependencyOfRelationship\<rparr>],
      None)"
proof -
  have h: "\<forall>c\<in>set [catalogerA, catalogerB]. catalogerError sampleResolver c = None"
    by (simp add: sample_eval)
  have s1: "synthesizeIdentifiers sampleEnv None package1 =
      package1\<lparr>CPEs := [''cpe:p1''], PURL := ''pkg:p1''\<rparr>"
    by (simp add: synthesizeIdentifiers_def sampleEnv_def package1_def)
  have s2: "synthesizeIdentifiers sampleEnv None package2 =
      package2\<lparr>CPEs := [''cpe:p2''], PURL := ''pkg:p2''\<rparr>"
    by (simp add: synthesizeIdentifiers_def sampleEnv_def package2_def)
  have k1: "keptOwnership sampleEnv sampleResolver None package1 =
      [\<lparr>From = PackageNode (package1\<lparr>CPEs := [''cpe:p1''], PURL := ''pkg:p1''\<rparr>),
        To = CoordinatesNode \<lparr>RealPath = ''/usr/bin/x'', FileSystemID = ''layer0''\<rparr>,
        RType = ContainsRelationship\<rparr>]"
    unfolding keptOwnership_def s1
    by (simp add: packageFileOwnershipRelationships_def package1_def sampleResolver_def
        ownedLocations_def locationX_def)
  have k2: "keptOwnership sampleEnv sampleResolver None package2 = []"
    unfolding keptOwnership_def s2
    by (simp add: packageFileOwnershipRelationships_def package2_def)
  have b: "builtCatalog sampleEnv sampleResolver None [catalogerA, catalogerB] =
      [package1\<lparr>CPEs := [''cpe:p1''], PURL := ''pkg:p1''\<rparr>,
       package2\<lparr>CPEs := [''cpe:p2''], PURL := ''pkg:p2''\<rparr>]"
    by (simp add: builtCatalog_def discovered_def succeeded_def sample_eval NewCatalog_def s1 s2)
       (simp add: PackageID_def package1_def package2_def)
  have n: "pkg_NewRelationships sampleEnv
        [package1\<lparr>CPEs := [''cpe:p1''], PURL := ''pkg:p1''\<rparr>,
         package2\<lparr>CPEs := [''cpe:p2''], PURL := ''pkg:p2''\<rparr>] =
      [\<lparr>From = PackageNode (package1\<lparr>CPEs := [''cpe:p1''], PURL := ''pkg:p1''\<rparr>),
        To = PackageNode (package1\<lparr>CPEs := [''cpe:p1''], PURL := ''pkg:p1''\<rparr>),
        RType = DependencyOfRelationship\<rparr>]"
    by (simp add: sampleEnv_def)
  from Catalog_success [OF h, of sampleEnv None]
  have "fst (Catalog sampleEnv sampleResolver None [catalogerA, catalogerB]) =
      (Some (builtCatalog sampleEnv sampleResolver None [catalogerA, catalogerB]),
       concat (map (\<lambda>c. concat (map (keptOwnership sampleEnv sampleResolver None)
                                   (catalogerPackages sampleResolver c)) @
                          catalogerRelationships sampleResolver c) [catalogerA, catalogerB]) @
         pkg_NewRelationships sampleEnv
           (builtCatalog sampleEnv sampleResolver None [catalogerA, catalogerB]),
       None)"
    by (rule conjunct1)
  then show ?thesis
    by (simp add: sample_eval k1 k2 b n)
qed

section \<open>The worker publishes on success only\<close>







end
